theory Spec2Isabelle
  imports Complex_Main "HOL-Library.Sublist"
begin

section \<open>The L'Oreal chat widget (script.js): a shallow embedding\<close>

text \<open>
  The script keeps three global variables (\<open>isSending\<close>, \<open>userContext\<close>, \<open>messages\<close>)
  and reacts to the form's submit event with an asynchronous handler. The embedding passes
  the globals, and the few DOM properties the handler writes, as one record; the handler
  is split where it waits for the Worker (the \<open>await\<close>s of \<open>fetch\<close> and \<open>res.json()\<close>
  inside \<open>getOpenAIReply\<close>, across which it keeps nothing but the globals) into the part
  that runs on the event and the part that runs when the call has settled.
\<close>

subsection \<open>JavaScript strings and values\<close>

text \<open>
  A JavaScript string is a sequence of UTF-16 code units; a code unit is modelled by its
  numeric value. \<open>js\<close> turns an ASCII literal of the source into that representation.
\<close>

type_synonym jsstring = "nat list"

definition js :: "string \<Rightarrow> jsstring" where
  "js s = map of_char s"

text \<open>
  \<open>WhiteSpace\<close> and \<open>LineTerminator\<close> of ECMAScript: the code units that
  \<open>String.prototype.trim\<close> strips and that \<open>\s\<close> matches in a regular expression.
\<close>

definition js_whitespace :: "nat \<Rightarrow> bool" where
  "js_whitespace c =
     (c = 9 \<or> c = 10 \<or> c = 11 \<or> c = 12 \<or> c = 13 \<or> c = 32 \<or> c = 160 \<or> c = 5760 \<or>
      (8192 \<le> c \<and> c \<le> 8202) \<or> c = 8232 \<or> c = 8233 \<or> c = 8239 \<or> c = 8287 \<or>
      c = 12288 \<or> c = 65279)"

definition js_trim :: "jsstring \<Rightarrow> jsstring" where
  "js_trim s = rev (dropWhile js_whitespace (rev (dropWhile js_whitespace s)))"

text \<open>\<open>xs.join(sep)\<close> on an array of strings.\<close>

fun js_join :: "jsstring \<Rightarrow> jsstring list \<Rightarrow> jsstring" where
  "js_join sep [] = []"
| "js_join sep [x] = x"
| "js_join sep (x # y # ys) = x @ sep @ js_join sep (y # ys)"

text \<open>
  \<open>xs.slice(start)\<close> with one argument: a negative start counts from the end and is
  clamped at the beginning, a non-negative one is clamped at the end. The argument is an
  integer here; JavaScript's \<open>-0\<close> is the integer \<open>0\<close>, so \<open>slice(-0)\<close> is \<open>slice(0)\<close>,
  the whole array.
\<close>

definition js_slice :: "'a list \<Rightarrow> int \<Rightarrow> 'a list" where
  "js_slice xs start =
     (let len = int (length xs);
          k = (if start < 0 then max (len + start) 0 else min start len)
      in drop (nat k) xs)"

text \<open>\<open>xs[0]\<close>: \<open>None\<close> stands for \<open>undefined\<close>, the value read from an empty array.\<close>

definition js_first :: "'a option list \<Rightarrow> 'a option" where
  "js_first xs = (case xs of [] \<Rightarrow> None | x # _ \<Rightarrow> x)"

text \<open>
  The values a parsed JSON body is made of, together with \<open>undefined\<close>, which property
  access yields. A number is a double: a rational, or one of the infinities that
  \<open>JSON.parse\<close> gives for a literal out of range. An object is its list of properties,
  read with \<open>map_of\<close>.
\<close>

datatype jsnum = Finite rat | PosInfinity | NegInfinity

datatype jsval =
    JUndefined
  | JNull
  | JBool bool
  | JNum jsnum
  | JStr jsstring
  | JArr "jsval list"
  | JObj "(jsstring \<times> jsval) list"

text \<open>\<open>ToBoolean\<close>, as applied by \<open>if (v)\<close> and \<open>v || w\<close>.\<close>

fun truthy :: "jsval \<Rightarrow> bool" where
  "truthy JUndefined = False"
| "truthy JNull = False"
| "truthy (JBool b) = b"
| "truthy (JNum n) = (n \<noteq> Finite 0)"
| "truthy (JStr s) = (s \<noteq> [])"
| "truthy (JArr xs) = True"
| "truthy (JObj kvs) = True"

text \<open>
  \<open>v?.key\<close> for the property names the script reads (\<open>choices\<close>, \<open>message\<close>, \<open>content\<close>,
  \<open>reply\<close>, \<open>error\<close>): none of them is a property of an array, a string, a number or a
  boolean, and optional chaining gives \<open>undefined\<close> on \<open>null\<close> and \<open>undefined\<close>.
\<close>

fun js_prop :: "jsval \<Rightarrow> jsstring \<Rightarrow> jsval" where
  "js_prop (JObj kvs) key = (case map_of kvs key of None \<Rightarrow> JUndefined | Some v \<Rightarrow> v)"
| "js_prop v key = JUndefined"

text \<open>\<open>v?.[0]\<close>: the first element of an array, the property \<open>"0"\<close> of an object, the
  first code unit of a string.\<close>

fun js_index0 :: "jsval \<Rightarrow> jsval" where
  "js_index0 (JArr xs) = (case xs of [] \<Rightarrow> JUndefined | x # _ \<Rightarrow> x)"
| "js_index0 (JObj kvs) = (case map_of kvs (js ''0'') of None \<Rightarrow> JUndefined | Some v \<Rightarrow> v)"
| "js_index0 (JStr s) = (case s of [] \<Rightarrow> JUndefined | c # _ \<Rightarrow> JStr [c])"
| "js_index0 v = JUndefined"

text \<open>The decimal digits of a number, as a template literal prints \<open>res.status\<close>.\<close>

function show_nat :: "nat \<Rightarrow> jsstring" where
  "show_nat n = (if n < 10 then [48 + n] else show_nat (n div 10) @ [48 + n mod 10])"
  by pat_completeness auto
termination
  by (relation "measure id") auto

declare show_nat.simps [simp del]

subsection \<open>The session state\<close>

datatype role = System | User | Assistant

record message =
  role :: role
  content :: jsval

record user_context =
  name :: "jsstring option"
  pastQuestions :: "jsstring list"

text \<open>A child of \<open>chatWindow\<close> made by \<open>appendMessage\<close>: its class and its text.\<close>

record bubble =
  className :: jsstring
  textContent :: jsval

datatype error =
    FetchRejected
  | JsonSyntaxError
  | HttpError jsval
  | UnexpectedShape

text \<open>
  \<open>messages\<close> may hold \<open>undefined\<close> (\<open>None\<close>): \<open>trimConversation\<close> and
  \<open>buildMessagesWithContext\<close> copy \<open>messages[0]\<close> without looking at it.
  \<open>inputValue\<close>, \<open>inputDisabled\<close>, \<open>sendDisabled\<close> are \<open>userInput.value\<close>,
  \<open>userInput.disabled\<close> and \<open>sendBtn.disabled\<close>; \<open>chatWindow\<close> lists the message
  bubbles, \<open>typingBubble\<close> says whether the typing indicator is shown, and \<open>console\<close>
  collects what \<open>console.error\<close> was given. Focus, scrolling and the theme toggle are
  left out: nothing the handler decides depends on them.
\<close>

record session =
  isSending :: bool
  userContext :: user_context
  messages :: "message option list"
  inputValue :: jsstring
  inputDisabled :: bool
  sendDisabled :: bool
  chatWindow :: "bubble list"
  typingBubble :: bool
  console :: "error list"

definition LOreal :: jsstring where
  "LOreal = js ''L'' @ [8217] @ js ''Or'' @ [233] @ js ''al''"

definition BASE_SYSTEM_PROMPT :: jsstring where
  "BASE_SYSTEM_PROMPT =
     js ''You are '' @ LOreal @ [8217] @ js ''s virtual product advisor.'' @ [10] @
     js ''- Answer only questions related to '' @ LOreal @
     js '' products, beauty routines, hair care, skincare, makeup, ingredients, and recommendations.'' @ [10] @
     js ''- If a user asks about unrelated topics, politely redirect them back to '' @ LOreal @
     js '' products and services.'' @ [10] @
     js ''- Be friendly, concise, professional and a little funny. Explain ingredients and routines clearly, avoid unverified medical claims.'' @ [10] @
     js ''- Encourage safe use (e.g., patch tests) and consulting a dermatologist if needed.''"

definition GREETING :: jsstring where
  "GREETING =
     [55357, 56395] @ js '' Hi! I'' @ [8217] @ js ''m your '' @ LOreal @
     js '' product advisor. Ask me about routines, ingredients, or which product fits your needs.''"

definition FALLBACK :: jsstring where
  "FALLBACK =
     [9888, 65039] @ js '' Sorry, I'' @ [8217] @
     js ''m having trouble answering right now. Please try again.''"

definition base_system :: message where
  "base_system = \<lparr>role = System, content = JStr BASE_SYSTEM_PROMPT\<rparr>"

text \<open>\<open>appendMessage(role, text)\<close>: the class is \<open>msg user\<close> for the role \<open>"user"\<close> and
  \<open>msg ai\<close> for any other.\<close>

definition appendMessage :: "jsstring \<Rightarrow> jsval \<Rightarrow> session \<Rightarrow> session" where
  "appendMessage r text s =
     s\<lparr>chatWindow := chatWindow s @
          [\<lparr>className = js ''msg '' @ (if r = js ''user'' then js ''user'' else js ''ai''),
            textContent = text\<rparr>]\<rparr>"

definition showTypingBubble :: "session \<Rightarrow> session" where
  "showTypingBubble s = (if typingBubble s then s else s\<lparr>typingBubble := True\<rparr>)"

definition hideTypingBubble :: "session \<Rightarrow> session" where
  "hideTypingBubble s = (if typingBubble s then s\<lparr>typingBubble := False\<rparr> else s)"

text \<open>The state once the script has been loaded: the globals as declared, then the
  greeting bubble (visual only).\<close>

definition init :: session where
  "init = appendMessage (js ''ai'') (JStr GREETING)
     \<lparr>isSending = False,
      userContext = \<lparr>name = None, pastQuestions = []\<rparr>,
      messages = [Some base_system],
      inputValue = [],
      inputDisabled = False,
      sendDisabled = False,
      chatWindow = [],
      typingBubble = False,
      console = []\<rparr>"

subsection \<open>Trimming the transcript\<close>

text \<open>
  \<open>trimConversation(maxMessages = 40)\<close>: when the transcript is longer than
  \<open>maxMessages\<close> it becomes \<open>[messages[0], ...messages.slice(-maxMessages)]\<close>; then
  \<open>pastQuestions\<close> is cut to its last 10 entries when it has more than 20.
\<close>

definition trimConversation :: "int \<Rightarrow> session \<Rightarrow> session" where
  "trimConversation maxMessages s =
     (let s1 = (if int (length (messages s)) > maxMessages
                then s\<lparr>messages := js_first (messages s) # js_slice (messages s) (- maxMessages)\<rparr>
                else s);
          pq = pastQuestions (userContext s1)
      in if length pq > 20
         then s1\<lparr>userContext := (userContext s1)\<lparr>pastQuestions := js_slice pq (- 10)\<rparr>\<rparr>
         else s1)"

text \<open>The two appends of the submit handler: \<open>messages.push({ role: ..., content })\<close>.\<close>

definition push_message :: "message \<Rightarrow> session \<Rightarrow> session" where
  "push_message m s = s\<lparr>messages := messages s @ [Some m]\<rparr>"

subsection \<open>The name detector\<close>

text \<open>
  The four regular expressions have the same form: an optional \<open>\b\<close>, a literal, \<open>\s+\<close>
  and the capture \<open>([A-Za-z\<dots>' -]{2,})\<close>, all under the flag \<open>i\<close>. Without the flag
  \<open>u\<close>, two code units match under \<open>i\<close> when their canonical forms (the upper case,
  unless it leaves ASCII or is longer than one unit) are equal. For the ASCII characters
  of the literals this is equality of the ASCII upper cases; for the character class it
  adds one code unit to the ranges written in the source: 376, the upper case of 255.
\<close>

definition ascii_upper :: "nat \<Rightarrow> nat" where
  "ascii_upper c = (if 97 \<le> c \<and> c \<le> 122 then c - 32 else c)"

definition lit_ci :: "nat \<Rightarrow> nat \<Rightarrow> bool" where
  "lit_ci p c = (c < 128 \<and> ascii_upper c = ascii_upper p)"

definition word_char :: "nat \<Rightarrow> bool" where
  "word_char c = ((48 \<le> c \<and> c \<le> 57) \<or> (65 \<le> c \<and> c \<le> 90) \<or> c = 95 \<or> (97 \<le> c \<and> c \<le> 122))"

definition name_char :: "nat \<Rightarrow> bool" where
  "name_char c =
     ((65 \<le> c \<and> c \<le> 90) \<or> (97 \<le> c \<and> c \<le> 122) \<or> (192 \<le> c \<and> c \<le> 214) \<or>
      (216 \<le> c \<and> c \<le> 246) \<or> (248 \<le> c \<and> c \<le> 255) \<or> c = 376 \<or>
      c = 39 \<or> c = 32 \<or> c = 45)"

record pattern =
  wordBoundary :: bool
  literal :: jsstring

definition patterns :: "pattern list" where
  "patterns =
     [\<lparr>wordBoundary = False, literal = js ''my name is''\<rparr>,
      \<lparr>wordBoundary = True, literal = js ''i am''\<rparr>,
      \<lparr>wordBoundary = True, literal = js ''i'm''\<rparr>,
      \<lparr>wordBoundary = True, literal = js ''im''\<rparr>]"

text \<open>The literal at the head of the text: the rest of the text when it matches.\<close>

fun match_literal :: "jsstring \<Rightarrow> jsstring \<Rightarrow> jsstring option" where
  "match_literal [] s = Some s"
| "match_literal (p # ps) [] = None"
| "match_literal (p # ps) (c # cs) = (if lit_ci p c then match_literal ps cs else None)"

text \<open>\<open>\b\<close> between the previous code unit (\<open>None\<close> at the start) and the text.\<close>

definition at_boundary :: "nat option \<Rightarrow> jsstring \<Rightarrow> bool" where
  "at_boundary prev s =
     ((case prev of None \<Rightarrow> False | Some c \<Rightarrow> word_char c) \<noteq>
      (case s of [] \<Rightarrow> False | c # _ \<Rightarrow> word_char c))"

text \<open>
  \<open>\s+([\<dots>]{2,})\<close> on the text after the literal, with the backtracking of the matcher:
  \<open>\s+\<close> is greedy and is tried with \<open>j\<close> code units, from the whole run of white space
  down to one; the capture is greedy and last, so it is the whole run of name characters
  that follows, and the attempt fails when that run is shorter than 2.
\<close>

fun capture_name :: "nat \<Rightarrow> jsstring \<Rightarrow> jsstring option" where
  "capture_name 0 r = None"
| "capture_name (Suc j) r =
     (let cap = takeWhile name_char (drop (Suc j) r)
      in if 2 \<le> length cap then Some cap else capture_name j r)"

definition match_at :: "pattern \<Rightarrow> nat option \<Rightarrow> jsstring \<Rightarrow> jsstring option" where
  "match_at re prev s =
     (if wordBoundary re \<and> \<not> at_boundary prev s then None
      else case match_literal (literal re) s of
             None \<Rightarrow> None
           | Some r \<Rightarrow> capture_name (length (takeWhile js_whitespace r)) r)"

text \<open>\<open>message.match(re)\<close>: the leftmost match; the result is the capture \<open>m[1]\<close>, and
  \<open>None\<close> is \<open>null\<close>.\<close>

fun js_match :: "pattern \<Rightarrow> nat option \<Rightarrow> jsstring \<Rightarrow> jsstring option" where
  "js_match re prev [] = match_at re prev []"
| "js_match re prev (c # cs) =
     (case match_at re prev (c # cs) of
        Some cap \<Rightarrow> Some cap
      | None \<Rightarrow> js_match re (Some c) cs)"

text \<open>The loop over the patterns: the name stored by the first one with \<open>m && m[1]\<close>.\<close>

fun first_match :: "pattern list \<Rightarrow> jsstring \<Rightarrow> jsstring option" where
  "first_match [] message = None"
| "first_match (re # res) message =
     (case js_match re None message of
        None \<Rightarrow> first_match res message
      | Some cap \<Rightarrow> if cap \<noteq> [] then Some (js_trim cap) else first_match res message)"

text \<open>\<open>if (userContext.name)\<close>: neither \<open>null\<close> nor the empty string.\<close>

definition name_set :: "user_context \<Rightarrow> bool" where
  "name_set ctx = (case name ctx of None \<Rightarrow> False | Some n \<Rightarrow> n \<noteq> [])"

definition detectAndStoreName :: "jsstring \<Rightarrow> session \<Rightarrow> session" where
  "detectAndStoreName message s =
     (if name_set (userContext s) then s
      else case first_match patterns message of
             None \<Rightarrow> s
           | Some n \<Rightarrow> s\<lparr>userContext := (userContext s)\<lparr>name := Some n\<rparr>\<rparr>)"

subsection \<open>The context builder\<close>

definition contextBlock :: "user_context \<Rightarrow> jsstring" where
  "contextBlock ctx =
     (let contextParts =
            (case name ctx of
               None \<Rightarrow> []
             | Some n \<Rightarrow> if n \<noteq> [] then [js ''User's name: '' @ n @ js ''.''] else []) @
            (if pastQuestions ctx \<noteq> []
             then [js ''User previously asked about: '' @ js_join (js ''; '') (pastQuestions ctx) @ js ''.'']
             else [])
      in if contextParts \<noteq> []
         then js ''Conversation context: '' @ js_join (js '' '') contextParts
         else js ''Conversation context: (none yet)'')"

definition buildMessagesWithContext :: "session \<Rightarrow> message option list" where
  "buildMessagesWithContext s =
     (let baseSystem = js_first (messages s);
          convo = js_slice (messages s) 1
      in [baseSystem, Some \<lparr>role = System, content = JStr (contextBlock (userContext s))\<rparr>] @ convo)"

subsection \<open>The call of the Worker\<close>

text \<open>
  What \<open>fetch\<close> and \<open>res.json()\<close> give: the call is rejected, or there is a response
  with a status and a body, \<open>None\<close> when the body is not JSON. \<open>res.ok\<close> is a status
  from 200 to 299.
\<close>

datatype fetch_result = Rejected | Response nat "jsval option"

definition res_ok :: "nat \<Rightarrow> bool" where
  "res_ok status = (200 \<le> status \<and> status \<le> 299)"

definition getOpenAIReply :: "fetch_result \<Rightarrow> error + jsval" where
  "getOpenAIReply r =
     (case r of
        Rejected \<Rightarrow> Inl FetchRejected
      | Response status body \<Rightarrow>
          (case body of
             None \<Rightarrow> Inl JsonSyntaxError
           | Some data \<Rightarrow>
               if \<not> res_ok status
               then Inl (HttpError (let e = js_prop data (js ''error'')
                                    in if truthy e then e else JStr (js ''HTTP '' @ show_nat status)))
               else let c = js_prop (js_prop (js_index0 (js_prop data (js ''choices''))) (js ''message''))
                              (js ''content'')
                    in if truthy c then Inr c
                       else let rp = js_prop data (js ''reply'')
                            in if truthy rp then Inr rp else Inl UnexpectedShape))"

subsection \<open>The submit handler\<close>

text \<open>
  The handler up to its \<open>await\<close>: the new state and, when the Worker is called, the
  message list sent to it. With \<open>isSending\<close> set, or with an input that is empty once
  trimmed, it returns at once.
\<close>

definition chatForm_submit :: "session \<Rightarrow> session \<times> message option list option" where
  "chatForm_submit s =
     (if isSending s then (s, None)
      else let content = js_trim (inputValue s)
           in if content = [] then (s, None)
              else let s1 = s\<lparr>inputValue := [], inputDisabled := True, sendDisabled := True,
                               isSending := True\<rparr>;
                       s2 = appendMessage (js ''user'') (JStr content) s1;
                       s3 = push_message \<lparr>role = User, content = JStr content\<rparr> s2;
                       s4 = s3\<lparr>userContext := (userContext s3)
                                 \<lparr>pastQuestions := pastQuestions (userContext s3) @ [content]\<rparr>\<rparr>;
                       s5 = detectAndStoreName content s4;
                       s6 = trimConversation 40 s5;
                       s7 = showTypingBubble s6
                   in (s7, Some (buildMessagesWithContext s7)))"

text \<open>The handler from the moment the call has settled: the \<open>try\<close> block's rest or the
  \<open>catch\<close> block, then the \<open>finally\<close> block.\<close>

definition chatForm_settled :: "fetch_result \<Rightarrow> session \<Rightarrow> session" where
  "chatForm_settled r s =
     (let s1 = (case getOpenAIReply r of
                  Inr reply \<Rightarrow>
                    appendMessage (js ''ai'') reply
                      (hideTypingBubble (push_message \<lparr>role = Assistant, content = reply\<rparr> s))
                | Inl err \<Rightarrow>
                    appendMessage (js ''ai'') (JStr FALLBACK)
                      (hideTypingBubble (s\<lparr>console := console s @ [err]\<rparr>)))
      in s1\<lparr>inputDisabled := False, sendDisabled := False, isSending := False\<rparr>)"

subsection \<open>Runs of the widget\<close>

text \<open>
  The events of a session: the user edits the input field, the form is submitted, a
  pending call of the Worker settles. Beside the state, a run counts the calls that have
  been made and have not settled yet; a call can only settle while it is pending.
\<close>

datatype event = Typed jsstring | Submit | Settled fetch_result

fun step :: "session \<times> nat \<Rightarrow> event \<Rightarrow> session \<times> nat" where
  "step (s, pending) (Typed v) = (s\<lparr>inputValue := v\<rparr>, pending)"
| "step (s, pending) Submit =
     (case chatForm_submit s of
        (s', None) \<Rightarrow> (s', pending)
      | (s', Some request) \<Rightarrow> (s', Suc pending))"
| "step (s, pending) (Settled r) =
     (if pending = 0 then (s, pending) else (chatForm_settled r s, pending - 1))"

definition run :: "event list \<Rightarrow> session \<times> nat" where
  "run evs = foldl step (init, 0) evs"

text \<open>The operations on the transcript alone, in any order and with any limit.\<close>

datatype transcript_op = AppendUser jsstring | AppendAssistant jsval | Trim int

fun apply_op :: "session \<Rightarrow> transcript_op \<Rightarrow> session" where
  "apply_op s (AppendUser c) = push_message \<lparr>role = User, content = JStr c\<rparr> s"
| "apply_op s (AppendAssistant reply) = push_message \<lparr>role = Assistant, content = reply\<rparr> s"
| "apply_op s (Trim maxMessages) = trimConversation maxMessages s"

text \<open>The appends among these operations.\<close>

fun is_append :: "transcript_op \<Rightarrow> bool" where
  "is_append (AppendUser c) = True"
| "is_append (AppendAssistant reply) = True"
| "is_append (Trim maxMessages) = False"

text \<open>Forty-five appends: user messages whose contents are the decimal numbers from
  1 to 45.\<close>

definition appends45 :: "transcript_op list" where
  "appends45 = map (\<lambda>i. AppendUser (show_nat i)) [1..<46]"

text \<open>A sample transcript of \<open>n\<close> messages: the base prompt, then user messages whose
  contents are the decimal numbers from 1.\<close>

definition numbered :: "nat \<Rightarrow> message option list" where
  "numbered n =
     Some base_system # map (\<lambda>i. Some \<lparr>role = User, content = JStr (show_nat i)\<rparr>) [1..<n]"

text \<open>The initial session with another transcript in \<open>messages\<close>.\<close>

definition with_transcript :: "message option list \<Rightarrow> session" where
  "with_transcript ms = init\<lparr>messages := ms\<rparr>"

subsection \<open>The specification's wording\<close>

text \<open>The last \<open>n\<close> elements of a sequence, in order.\<close>

definition last_n :: "nat \<Rightarrow> 'a list \<Rightarrow> 'a list" where
  "last_n n xs = rev (take n (rev xs))"

text \<open>
  The reply as the specification words it: the text at \<open>choices[0].message.content\<close> when
  the body contains it, otherwise the \<open>reply\<close> field when the body contains one, otherwise
  a shape error. A body contains a property when reading it does not give \<open>undefined\<close>.
\<close>

definition claimed_reply :: "jsval \<Rightarrow> error + jsval" where
  "claimed_reply data =
     (let c = js_prop (js_prop (js_index0 (js_prop data (js ''choices''))) (js ''message''))
                (js ''content'');
          rp = js_prop data (js ''reply'')
      in if c \<noteq> JUndefined then Inr c
         else if rp \<noteq> JUndefined then Inr rp
         else Inl UnexpectedShape)"


subsection \<open>The single-flight invariant\<close>

text \<open>A run has one pending call while \<open>isSending\<close> is set and none otherwise.\<close>

definition single_flight :: "session \<times> nat \<Rightarrow> bool" where
  "single_flight c = (snd c = (if isSending (fst c) then 1 else 0))"

subsection \<open>Sample data\<close>

text \<open>A body with neither accepted shape, a body with a completion of a given text, an
  answer in the second shape, and a context with a name and two questions.\<close>

definition foo_bar :: jsval where
  "foo_bar = JObj [(js ''foo'', JStr (js ''bar''))]"

definition completion :: "jsstring \<Rightarrow> jsval" where
  "completion t =
     JObj [(js ''choices'', JArr [JObj [(js ''message'', JObj [(js ''content'', JStr t)])]])]"

definition ok_response :: fetch_result where
  "ok_response = Response 200 (Some (JObj [(js ''reply'', JStr (js ''ok''))]))"

text \<open>One complete exchange: the user types \<open>hi\<close> and submits, the Worker answers.\<close>

definition exchange :: "event list" where
  "exchange = [Typed (js ''hi''), Submit, Settled ok_response]"

definition ana :: user_context where
  "ana = \<lparr>name = Some (js ''Ana''), pastQuestions = [js ''red lipstick'', js ''dry scalp'']\<rparr>"

section \<open>Properties\<close>

subsection \<open>Arrays and the transcript\<close>

lemma js_slice_neg:
  assumes "0 < n"
  shows "js_slice xs (- n) = drop (length xs - nat n) xs"
proof -
  have "nat (max (int (length xs) + - n) 0) = length xs - nat n"
    using assms by (simp add: max_def) arith
  then show ?thesis
    using assms by (simp add: js_slice_def Let_def)
qed

lemma last_n_drop: "last_n n xs = drop (length xs - n) xs"
  by (simp add: last_n_def rev_take)

lemma js_first_nonempty: "js_first xs = Some m \<Longrightarrow> xs \<noteq> []"
  by (auto simp: js_first_def)

lemma js_first_nth: "xs \<noteq> [] \<Longrightarrow> js_first xs = xs ! 0"
  by (cases xs) (simp_all add: js_first_def)

lemma drop_as_map_nth: "drop k xs = map (\<lambda>i. xs ! i) [k..<length xs]"
  by (simp add: list_eq_iff_nth_eq)

lemma messages_trim:
  "messages (trimConversation maxMessages s) =
     (if int (length (messages s)) > maxMessages
      then js_first (messages s) # js_slice (messages s) (- maxMessages)
      else messages s)"
  by (simp add: trimConversation_def Let_def)

lemma js_first_trim: "js_first (messages (trimConversation n s)) = js_first (messages s)"
  by (simp add: messages_trim js_first_def split: list.splits)

lemma js_first_push:
  "messages s \<noteq> [] \<Longrightarrow> js_first (messages (push_message m s)) = js_first (messages s)"
  by (cases "messages s") (simp_all add: push_message_def js_first_def)

lemma js_first_init: "js_first (messages init) = Some base_system"
  by (simp add: init_def appendMessage_def js_first_def)

lemma length_numbered: "0 < n \<Longrightarrow> length (numbered n) = n"
  by (simp add: numbered_def)

lemma js_first_numbered: "js_first (numbered n) = Some base_system"
  by (simp add: numbered_def js_first_def)

lemma numbered_tail: "Some base_system \<notin> set (tl (numbered n))"
  by (auto simp: numbered_def base_system_def)

lemma messages_with_transcript: "messages (with_transcript ms) = ms"
  by (simp add: with_transcript_def)

lemma trim_long:
  assumes "1 \<le> maxMessages" and "int (length (messages s)) > maxMessages"
  shows "messages (trimConversation maxMessages s) =
           js_first (messages s) # last_n (nat maxMessages) (messages s)"
  using assms by (simp add: messages_trim js_slice_neg last_n_drop)

lemma trim_short:
  "int (length (messages s)) \<le> maxMessages \<Longrightarrow>
   messages (trimConversation maxMessages s) = messages s"
  by (simp add: messages_trim)

lemma length_trim_long:
  assumes "1 \<le> maxMessages" and "int (length (messages s)) > maxMessages"
  shows "length (messages (trimConversation maxMessages s)) = nat maxMessages + 1"
  using assms by (simp add: messages_trim js_slice_neg)

lemma slice_suffix_tl:
  assumes "1 \<le> maxMessages" and "int (length xs) > maxMessages"
  shows "suffix (js_slice xs (- maxMessages)) (tl xs)"
proof (cases xs)
  case Nil
  with assms show ?thesis by simp
next
  case (Cons x ys)
  with assms have "nat maxMessages \<le> length ys"
    by simp
  then have "js_slice xs (- maxMessages) = drop (length ys - nat maxMessages) ys"
    using assms Cons by (simp add: js_slice_neg drop_Cons' Suc_diff_le)
  then show ?thesis
    using Cons by (simp add: suffix_drop)
qed

lemma first_after_trim:
  assumes "1 \<le> maxMessages" and "int (length (messages s)) > maxMessages"
    and "js_first (messages s) \<notin> set (tl (messages s))"
  shows "count_list (messages (trimConversation maxMessages s)) (js_first (messages s)) = 1"
    and "js_first (messages s) \<notin> set (tl (messages (trimConversation maxMessages s)))"
proof -
  have "set (js_slice (messages s) (- maxMessages)) \<subseteq> set (tl (messages s))"
    using slice_suffix_tl [OF assms(1,2)] by (rule set_mono_suffix)
  then have notin: "js_first (messages s) \<notin> set (js_slice (messages s) (- maxMessages))"
    using assms(3) by blast
  then show "js_first (messages s) \<notin> set (tl (messages (trimConversation maxMessages s)))"
    using assms(2) by (simp add: messages_trim)
  show "count_list (messages (trimConversation maxMessages s)) (js_first (messages s)) = 1"
    using assms(2) notin by (simp add: messages_trim count_list_0_iff)
qed

subsection \<open>What the handler does to the globals\<close>

lemma messages_detect: "messages (detectAndStoreName m s) = messages s"
  by (simp add: detectAndStoreName_def split: option.splits)

lemma isSending_detect: "isSending (detectAndStoreName m s) = isSending s"
  by (simp add: detectAndStoreName_def split: option.splits)

lemma isSending_trim: "isSending (trimConversation n s) = isSending s"
  by (simp add: trimConversation_def Let_def)

lemma name_trim: "name (userContext (trimConversation n s)) = name (userContext s)"
  by (simp add: trimConversation_def Let_def)

lemma detect_noop: "name_set (userContext s) \<Longrightarrow> detectAndStoreName message s = s"
  by (simp add: detectAndStoreName_def)

lemma name_set_cong: "name c = name c' \<Longrightarrow> name_set c = name_set c'"
  by (simp add: name_set_def)

lemma submit_while_sending: "isSending s \<Longrightarrow> chatForm_submit s = (s, None)"
  by (simp add: chatForm_submit_def)

lemma submit_cases:
  "chatForm_submit s = (s', rq) \<Longrightarrow>
     (rq = None \<and> s' = s) \<or> (rq \<noteq> None \<and> \<not> isSending s \<and> isSending s')"
  by (auto simp: chatForm_submit_def Let_def showTypingBubble_def isSending_trim isSending_detect
      push_message_def appendMessage_def split: if_splits)

lemma messages_submit:
  "messages (fst (chatForm_submit s)) =
     (if isSending s \<or> js_trim (inputValue s) = [] then messages s
      else messages (trimConversation 40
             (push_message \<lparr>role = User, content = JStr (js_trim (inputValue s))\<rparr> s)))"
  by (simp add: chatForm_submit_def Let_def showTypingBubble_def messages_trim messages_detect
      push_message_def appendMessage_def)

lemma messages_settled:
  "messages (chatForm_settled r s) =
     (case getOpenAIReply r of
        Inl err \<Rightarrow> messages s
      | Inr reply \<Rightarrow> messages (push_message \<lparr>role = Assistant, content = reply\<rparr> s))"
  by (simp add: chatForm_settled_def Let_def hideTypingBubble_def push_message_def appendMessage_def
      split: sum.splits)

lemma userContext_settled: "userContext (chatForm_settled r s) = userContext s"
  by (simp add: chatForm_settled_def Let_def hideTypingBubble_def push_message_def appendMessage_def
      split: sum.splits)

lemma settled_idle: "isSending (chatForm_settled r s) = False"
  by (simp add: chatForm_settled_def Let_def)

lemma name_submit:
  "name_set (userContext s) \<Longrightarrow>
   name (userContext (fst (chatForm_submit s))) = name (userContext s)"
  by (simp add: chatForm_submit_def Let_def showTypingBubble_def name_trim detect_noop name_set_def
      push_message_def appendMessage_def)

subsection \<open>The first message along a run\<close>

lemma js_first_submit:
  "js_first (messages s) = Some m \<Longrightarrow> js_first (messages (fst (chatForm_submit s))) = Some m"
  by (simp add: messages_submit js_first_trim js_first_push js_first_nonempty)

lemma js_first_settled:
  "js_first (messages s) = Some m \<Longrightarrow> js_first (messages (chatForm_settled r s)) = Some m"
  by (simp add: messages_settled js_first_push js_first_nonempty split: sum.splits)

lemma js_first_step:
  assumes "js_first (messages s) = Some m"
  shows "js_first (messages (fst (step (s, p) e))) = Some m"
proof (cases e)
  case (Typed v)
  with assms show ?thesis by simp
next
  case Submit
  have "js_first (messages (fst (chatForm_submit s))) = Some m"
    using assms by (rule js_first_submit)
  then show ?thesis
    using Submit by (cases "chatForm_submit s") (auto split: option.splits)
next
  case (Settled r)
  with assms show ?thesis by (simp add: js_first_settled)
qed

lemma js_first_steps:
  "js_first (messages s) = Some m \<Longrightarrow> js_first (messages (fst (foldl step (s, p) evs))) = Some m"
proof (induction evs arbitrary: s p)
  case Nil
  then show ?case by simp
next
  case (Cons e evs)
  obtain s' p' where st: "step (s, p) e = (s', p')"
    by (cases "step (s, p) e")
  then have "js_first (messages s') = Some m"
    using js_first_step [OF Cons.prems, of p e] by simp
  then have "js_first (messages (fst (foldl step (s', p') evs))) = Some m"
    by (rule Cons.IH)
  then show ?case
    using st by simp
qed

lemma js_first_apply_op:
  assumes "js_first (messages s) = Some m"
  shows "js_first (messages (apply_op s x)) = Some m"
proof -
  have "messages s \<noteq> []"
    using assms by (rule js_first_nonempty)
  then show ?thesis
    using assms by (cases x) (simp_all add: js_first_trim js_first_push)
qed

lemma js_first_ops:
  "js_first (messages s) = Some m \<Longrightarrow> js_first (messages (foldl apply_op s ops)) = Some m"
  by (induction ops arbitrary: s) (simp_all add: js_first_apply_op)

subsection \<open>Twenty exchanges and one more question\<close>

lemma reply_ok: "getOpenAIReply ok_response = Inr (JStr (js ''ok''))"
  by (simp add: getOpenAIReply_def ok_response_def res_ok_def js_def)

lemma trim_hi: "js_trim (js ''hi'') = js ''hi''" "js ''hi'' \<noteq> []"
  by (simp_all add: js_trim_def js_def js_whitespace_def)

lemma submit_hi:
  assumes "\<not> isSending s"
  shows "\<exists>s1 rq. chatForm_submit (s\<lparr>inputValue := js ''hi''\<rparr>) = (s1, Some rq) \<and> isSending s1 \<and>
           messages s1 = messages (trimConversation 40 (push_message \<lparr>role = User, content = JStr (js ''hi'')\<rparr> s))"
proof -
  let ?s = "s\<lparr>inputValue := js ''hi''\<rparr>"
  obtain s1 rq where r: "chatForm_submit ?s = (s1, rq)"
    by (cases "chatForm_submit ?s")
  have "rq \<noteq> None"
    using r assms by (auto simp: chatForm_submit_def Let_def trim_hi)
  moreover have "isSending s1"
    using submit_cases [OF r] calculation by auto
  moreover have "messages s1 = messages (trimConversation 40 (push_message \<lparr>role = User, content = JStr (js ''hi'')\<rparr> s))"
    using messages_submit [of ?s] r assms by (simp add: trim_hi messages_trim push_message_def)
  ultimately show ?thesis
    using r by auto
qed

lemma exchange_grows:
  assumes "\<not> isSending s" and "length (messages s) < 40"
  shows "\<exists>s'. foldl step (s, 0) exchange = (s', 0) \<and> \<not> isSending s' \<and>
           length (messages s') = length (messages s) + 2"
proof -
  obtain s1 rq where s1: "chatForm_submit (s\<lparr>inputValue := js ''hi''\<rparr>) = (s1, Some rq)"
    and "isSending s1"
    and m1: "messages s1 = messages (trimConversation 40 (push_message \<lparr>role = User, content = JStr (js ''hi'')\<rparr> s))"
    using submit_hi [OF assms(1)] by blast
  have l1: "length (messages s1) = length (messages s) + 1"
    using assms(2) by (simp add: m1 messages_trim push_message_def)
  have "foldl step (s, 0) exchange = (chatForm_settled ok_response s1, 0)"
    by (simp add: exchange_def s1)
  moreover have "length (messages (chatForm_settled ok_response s1)) = length (messages s) + 2"
    by (simp add: messages_settled reply_ok push_message_def l1)
  ultimately show ?thesis
    by (simp add: settled_idle)
qed

lemma exchanges:
  "n \<le> 20 \<Longrightarrow> \<exists>s'. run (concat (replicate n exchange)) = (s', 0) \<and> \<not> isSending s' \<and>
           length (messages s') = 2 * n + 1"
proof (induction n)
  case 0
  show ?case by (simp add: run_def init_def appendMessage_def)
next
  case (Suc n)
  then obtain s' where s': "run (concat (replicate n exchange)) = (s', 0)" "\<not> isSending s'"
    "length (messages s') = 2 * n + 1"
    by auto
  have "length (messages s') < 40"
    using Suc.prems s'(3) by simp
  from exchange_grows [OF s'(2) this] obtain s'' where
    "foldl step (s', 0) exchange = (s'', 0)" "\<not> isSending s''" "length (messages s'') = length (messages s') + 2"
    by blast
  moreover have "replicate (Suc n) exchange = replicate n exchange @ [exchange]"
    by (simp add: replicate_append_same)
  then have "concat (replicate (Suc n) exchange) = concat (replicate n exchange) @ exchange"
    by (simp only: concat_append) simp
  ultimately show ?case
    using s' by (simp add: run_def)
qed

lemma forty_one_reached:
  "length (messages (fst (run (concat (replicate 20 exchange) @ [Typed (js ''hi''), Submit])))) = 41"
proof -
  obtain s' where s': "run (concat (replicate 20 exchange)) = (s', 0)" "\<not> isSending s'"
    "length (messages s') = 41"
    using exchanges [of 20] by auto
  obtain s1 rq where s1: "chatForm_submit (s'\<lparr>inputValue := js ''hi''\<rparr>) = (s1, Some rq)"
    and m1: "messages s1 = messages (trimConversation 40 (push_message \<lparr>role = User, content = JStr (js ''hi'')\<rparr> s'))"
    using submit_hi [OF s'(2)] by blast
  have "run (concat (replicate 20 exchange) @ [Typed (js ''hi''), Submit]) = (s1, 1)"
    using s'(1) s1 by (simp add: run_def)
  moreover have "length (messages s1) = 41"
    using s'(3) by (simp add: m1 messages_trim push_message_def js_slice_neg)
  ultimately show ?thesis by simp
qed

subsection \<open>The single-flight invariant along a run\<close>

lemma single_flight_step: "single_flight c \<Longrightarrow> single_flight (step c e)"
proof (cases c)
  case (Pair s p)
  assume inv: "single_flight c"
  show ?thesis
  proof (cases e)
    case (Typed v)
    with Pair inv show ?thesis by (simp add: single_flight_def)
  next
    case Submit
    obtain s' rq where r: "chatForm_submit s = (s', rq)"
      by (cases "chatForm_submit s")
    from submit_cases [OF r] Pair inv Submit r show ?thesis
      by (auto simp: single_flight_def)
  next
    case (Settled r)
    with Pair inv show ?thesis
      by (auto simp: single_flight_def settled_idle split: if_splits)
  qed
qed

lemma single_flight_steps: "single_flight c \<Longrightarrow> single_flight (foldl step c evs)"
  by (induction evs arbitrary: c) (simp_all add: single_flight_step)

lemma single_flight_run: "single_flight (run evs)"
  unfolding run_def
  by (rule single_flight_steps) (simp add: single_flight_def init_def appendMessage_def)

lemma submit_hi_sending: "isSending (fst (chatForm_submit (init\<lparr>inputValue := js ''hi''\<rparr>)))"
proof -
  have "\<not> isSending init"
    by (simp add: init_def appendMessage_def)
  from submit_hi [OF this] show ?thesis
    by auto
qed

lemma submit_hi_messages:
  "messages (fst (chatForm_submit (init\<lparr>inputValue := js ''hi''\<rparr>))) =
     [Some base_system, Some \<lparr>role = User, content = JStr (js ''hi'')\<rparr>]"
proof -
  have "\<not> isSending init"
    by (simp add: init_def appendMessage_def)
  from submit_hi [OF this] show ?thesis
    by (auto simp: messages_trim push_message_def init_def appendMessage_def)
qed

subsection \<open>The name detector on sample inputs\<close>

lemmas regex_eval = js_def match_at_def at_boundary_def word_char_def lit_ci_def ascii_upper_def
  js_whitespace_def name_char_def

lemma renae_first_match:
  "first_match patterns (js ''Hi, I'm Renae and I have dry skin'') =
     Some (js ''Renae and I have dry skin'')"
proof -
  let ?m = "js ''Hi, I'm Renae and I have dry skin''"
  have p1: "js_match \<lparr>wordBoundary = False, literal = js ''my name is''\<rparr> None ?m = None"
    by (simp add: regex_eval)
  have p2: "js_match \<lparr>wordBoundary = True, literal = js ''i am''\<rparr> None ?m = None"
    by (simp add: regex_eval)
  have p3: "js_match \<lparr>wordBoundary = True, literal = js ''i'm''\<rparr> None ?m
              = Some (js ''Renae and I have dry skin'')"
    by (simp add: regex_eval)
  have t: "js_trim (js ''Renae and I have dry skin'') = js ''Renae and I have dry skin''"
    by (simp add: js_trim_def js_def js_whitespace_def)
  have ne: "js ''Renae and I have dry skin'' \<noteq> []"
    by (simp add: js_def)
  show ?thesis
    unfolding patterns_def first_match.simps p1 p2 p3 using t ne by simp
qed

lemma bob_first_match: "first_match patterns (js ''my name is Bob'') = Some (js ''Bob'')"
proof -
  have "js_match \<lparr>wordBoundary = False, literal = js ''my name is''\<rparr> None (js ''my name is Bob'')
          = Some (js ''Bob'')"
    by (simp add: regex_eval)
  moreover have "js_trim (js ''Bob'') = js ''Bob''" "js ''Bob'' \<noteq> []"
    by (simp_all add: js_trim_def js_def js_whitespace_def)
  ultimately show ?thesis
    unfolding patterns_def first_match.simps by simp
qed

lemma init_unnamed: "\<not> name_set (userContext init)"
  by (simp add: init_def appendMessage_def name_set_def)

subsection \<open>The name along a run\<close>

lemma name_step:
  "name_set (userContext s) \<Longrightarrow>
   name (userContext (fst (step (s, p) e))) = name (userContext s)"
proof (cases e)
  case Submit
  assume "name_set (userContext s)"
  then have "name (userContext (fst (chatForm_submit s))) = name (userContext s)"
    by (rule name_submit)
  then show ?thesis
    using Submit by (cases "chatForm_submit s") (auto split: option.splits)
qed (simp_all add: userContext_settled)

lemma name_steps:
  "name_set (userContext s) \<Longrightarrow>
   name (userContext (fst (foldl step (s, p) evs))) = name (userContext s)"
proof (induction evs arbitrary: s p)
  case Nil
  show ?case by simp
next
  case (Cons e evs)
  obtain s' p' where st: "step (s, p) e = (s', p')"
    by (cases "step (s, p) e")
  with Cons.prems have eq: "name (userContext s') = name (userContext s)"
    using name_step [of s p e] by simp
  then have "name_set (userContext s')"
    using Cons.prems name_set_cong by blast
  then have "name (userContext (fst (foldl step (s', p') evs))) = name (userContext s')"
    by (rule Cons.IH)
  then show ?case
    using st eq by simp
qed

subsection \<open>The context text and the Worker's answers\<close>

lemma build_shape:
  "buildMessagesWithContext s =
     js_first (messages s) #
     Some \<lparr>role = System, content = JStr (contextBlock (userContext s))\<rparr> # tl (messages s)"
  by (cases "messages s") (simp_all add: buildMessagesWithContext_def js_slice_def Let_def)

lemma contextBlock_ana:
  "contextBlock ana =
     js ''Conversation context: User's name: Ana. User previously asked about: red lipstick; dry scalp.''"
  by (simp add: contextBlock_def ana_def js_def)

lemma contextBlock_empty:
  "contextBlock \<lparr>name = None, pastQuestions = []\<rparr> = js ''Conversation context: (none yet)''"
  by (simp add: contextBlock_def)

lemma failure_state:
  assumes "getOpenAIReply r = Inl err"
  shows "messages (chatForm_settled r s) = messages s"
    and "userContext (chatForm_settled r s) = userContext s"
    and "chatWindow (chatForm_settled r s) =
           chatWindow s @ [\<lparr>className = js ''msg ai'', textContent = JStr FALLBACK\<rparr>]"
    and "console (chatForm_settled r s) = console s @ [err]"
  using assms
  by (simp_all add: chatForm_settled_def Let_def hideTypingBubble_def appendMessage_def js_def)

lemma failure_kinds:
  "getOpenAIReply Rejected = Inl FetchRejected"
  "getOpenAIReply (Response status None) = Inl JsonSyntaxError"
  "\<not> res_ok status \<Longrightarrow> \<exists>v. getOpenAIReply (Response status (Some data)) = Inl (HttpError v)"
  "res_ok status \<Longrightarrow> getOpenAIReply (Response status (Some foo_bar)) = Inl UnexpectedShape"
  by (simp_all add: getOpenAIReply_def foo_bar_def js_def)

lemma not_ok_fails: "\<not> res_ok status \<Longrightarrow> isl (getOpenAIReply (Response status body))"
  by (cases body) (simp_all add: getOpenAIReply_def)

subsection \<open>Forty-five appends\<close>

lemma length_appends:
  "list_all is_append ops \<Longrightarrow>
   length (messages (foldl apply_op s ops)) = length (messages s) + length ops"
proof (induction ops arbitrary: s)
  case Nil
  show ?case by simp
next
  case (Cons x ops)
  then have "is_append x" and rest: "list_all is_append ops"
    by simp_all
  then have "length (messages (apply_op s x)) = length (messages s) + 1"
    by (cases x) (simp_all add: push_message_def)
  then show ?case
    using Cons.IH [OF rest, of "apply_op s x"] by simp
qed

lemma trim_46:
  assumes "length (messages s) = 46"
  shows "messages (trimConversation 40 s) = messages s ! 0 # map (\<lambda>i. messages s ! i) [6..<46]"
proof -
  have "messages s \<noteq> []"
    using assms by auto
  then have "js_first (messages s) = messages s ! 0"
    by (rule js_first_nth)
  moreover have "js_slice (messages s) (- 40) = drop 6 (messages s)"
    using assms by (simp add: js_slice_neg)
  moreover have "drop 6 (messages s) = map (\<lambda>i. messages s ! i) [6..<46]"
    using drop_as_map_nth [of 6 "messages s"] assms by simp
  ultimately show ?thesis
    using assms by (simp add: messages_trim)
qed

lemma messages_user_appends:
  "messages (foldl apply_op s (map (\<lambda>i. AppendUser (show_nat i)) ns)) =
     messages s @ map (\<lambda>i. Some \<lparr>role = User, content = JStr (show_nat i)\<rparr>) ns"
  by (induction ns arbitrary: s) (simp_all add: push_message_def)

lemma messages_appends45: "messages (foldl apply_op init appends45) = numbered 46"
  by (simp add: appends45_def messages_user_appends numbered_def init_def appendMessage_def)

lemma appends45_are_appends: "length appends45 = 45 \<and> list_all is_append appends45"
  by (simp add: appends45_def list_all_iff)

lemma numbered_nth:
  "0 < i \<Longrightarrow> i < n \<Longrightarrow> numbered n ! i = Some \<lparr>role = User, content = JStr (show_nat i)\<rparr>"
  by (cases i) (simp_all add: numbered_def)

lemma numbered_5_6: "numbered 46 ! 6 \<noteq> numbered 46 ! 5"
  by (simp add: numbered_nth show_nat.simps [of 5] show_nat.simps [of 6])

text \<open>The limit 0, which the script never passes: \<open>slice(-0)\<close> is \<open>slice(0)\<close>, the whole
  array, so the initial transcript becomes the system prompt twice.\<close>

lemma trim_with_limit_0:
  "messages (trimConversation 0 init) = [Some base_system, Some base_system]"
  by (simp add: messages_trim init_def appendMessage_def js_slice_def js_first_def)

subsection \<open>The questions joined, and an input that stores the empty name\<close>

lemma js_join_concat: "js_join sep (q # qs) = q @ concat (map (\<lambda>x. sep @ x) qs)"
  by (induction qs arbitrary: q) simp_all

lemma three_po_first_match: "first_match patterns (js ''my name is   3PO'') = Some []"
proof -
  have "js_match \<lparr>wordBoundary = False, literal = js ''my name is''\<rparr> None
          (js ''my name is   3PO'') = Some [32, 32]"
    by (simp add: regex_eval)
  moreover have "js_trim [32, 32] = []"
    by (simp add: js_trim_def js_whitespace_def)
  ultimately show ?thesis
    unfolding patterns_def first_match.simps by simp
qed

lemma three_po_trim: "js_trim (js ''my name is   3PO'') = js ''my name is   3PO''"
  by (simp add: js_trim_def js_def js_whitespace_def)

lemma three_po_nonempty: "js ''my name is   3PO'' \<noteq> []"
  by (simp add: js_def)

lemma three_po_submit:
  "userContext (fst (chatForm_submit (init\<lparr>inputValue := js ''my name is   3PO''\<rparr>))) =
     \<lparr>name = Some [], pastQuestions = [js ''my name is   3PO'']\<rparr>"
  by (simp add: chatForm_submit_def Let_def three_po_trim three_po_nonempty showTypingBubble_def
      trimConversation_def detectAndStoreName_def name_set_def three_po_first_match
      push_message_def appendMessage_def init_def)

section \<open>The claims\<close>

subsection \<open>C1: the transcript begins with the system prompt\<close>

text \<open>
  Claim C1. Whatever appends of user and assistant messages and whatever calls of
  \<open>trimConversation\<close> (with any limit) are applied to the initial transcript, in any
  order, and whatever events a session goes through, \<open>messages\<close> is not empty and
  \<open>messages[0]\<close> is the base system prompt seeded at load time, a message of role
  \<open>system\<close>.
\<close>

theorem transcript_begins_with_system_prompt:
  "messages (foldl apply_op init ops) \<noteq> [] \<and>
   js_first (messages (foldl apply_op init ops)) = Some base_system \<and>
   messages (fst (run evs)) \<noteq> [] \<and>
   js_first (messages (fst (run evs))) = Some base_system \<and>
   role base_system = System"
proof -
  have ops: "js_first (messages (foldl apply_op init ops)) = Some base_system"
    using js_first_init by (rule js_first_ops)
  have evs: "js_first (messages (fst (run evs))) = Some base_system"
    unfolding run_def using js_first_init by (rule js_first_steps)
  have "messages (foldl apply_op init ops) \<noteq> []"
    using ops by (rule js_first_nonempty)
  moreover have "messages (fst (run evs)) \<noteq> []"
    using evs by (rule js_first_nonempty)
  moreover have "role base_system = System"
    by (simp add: base_system_def)
  ultimately show ?thesis
    using ops evs by simp
qed

subsection \<open>C2: the length after the default trim\<close>

text \<open>
  Claim C2, as the code has it. After \<open>trimConversation()\<close> with the default limit 40 the
  transcript has at most 41 messages: a transcript of more than 40 messages becomes its
  first message followed by its 40 most recent messages, 41 in all.
\<close>

theorem default_trim_keeps_first_and_last_40:
  "length (messages (trimConversation 40 s)) \<le> 41 \<and>
   (40 < length (messages s) \<longrightarrow>
      messages (trimConversation 40 s) = js_first (messages s) # last_n 40 (messages s) \<and>
      length (messages (trimConversation 40 s)) = 41)"
proof -
  have "length (messages (trimConversation 40 s)) \<le> 41"
    by (simp add: messages_trim js_slice_neg)
  moreover have "messages (trimConversation 40 s) = js_first (messages s) # last_n 40 (messages s)"
    if "40 < length (messages s)"
    using trim_long [of 40 s] that by simp
  moreover have "length (messages (trimConversation 40 s)) = 41"
    if "40 < length (messages s)"
    using length_trim_long [of 40 s] that by simp
  ultimately show ?thesis by blast
qed

text \<open>The theorem at a transcript of 45 messages.\<close>

theorem default_trim_keeps_first_and_last_40_witness:
  "40 < length (messages (with_transcript (numbered 45))) \<and>
   messages (trimConversation 40 (with_transcript (numbered 45))) =
     js_first (messages (with_transcript (numbered 45))) #
     last_n 40 (messages (with_transcript (numbered 45))) \<and>
   length (messages (trimConversation 40 (with_transcript (numbered 45)))) = 41"
proof -
  have "40 < length (messages (with_transcript (numbered 45)))"
    by (simp add: messages_with_transcript length_numbered)
  then show ?thesis
    using default_trim_keeps_first_and_last_40 [of "with_transcript (numbered 45)"] by blast
qed

text \<open>
  The bound 40 of the claim as stated fails. A transcript of 42 messages is trimmed to 41;
  and a session reaches that: after twenty complete exchanges the transcript has 41
  messages, the next submit appends the 42nd and calls \<open>trimConversation()\<close>, which leaves
  41.
\<close>

theorem default_trim_leaves_41:
  "\<not> length (messages (trimConversation 40 (with_transcript (numbered 42)))) \<le> 40 \<and>
   \<not> length (messages (fst (run (concat (replicate 20 exchange) @ [Typed (js ''hi''), Submit])))) \<le> 40"
  by (simp add: forty_one_reached messages_trim js_slice_neg length_numbered messages_with_transcript)

subsection \<open>C3: what the trim keeps\<close>

text \<open>
  Claim C3, as the code has it. For every limit \<open>maxMessages\<close> of at least 1 and every
  transcript longer than \<open>maxMessages\<close>, \<open>trimConversation(maxMessages)\<close> replaces the
  transcript by its first element followed by its last \<open>maxMessages\<close> elements, in order;
  a transcript of at most \<open>maxMessages\<close> elements is left unchanged. After 45 appends to
  the seeded transcript, which then has 46 elements, the trim with the limit 40 gives
  element 0 followed by elements 6 to 45 of the sequence before the trim.
\<close>

theorem trim_replaces_by_first_and_last:
  "(1 \<le> maxMessages \<and> maxMessages < int (length (messages s)) \<longrightarrow>
      messages (trimConversation maxMessages s) =
        messages s ! 0 # last_n (nat maxMessages) (messages s)) \<and>
   (int (length (messages s)) \<le> maxMessages \<longrightarrow>
      messages (trimConversation maxMessages s) = messages s) \<and>
   (length ops = 45 \<and> list_all is_append ops \<longrightarrow>
      messages (trimConversation 40 (foldl apply_op init ops)) =
        messages (foldl apply_op init ops) ! 0 #
        map (\<lambda>i. messages (foldl apply_op init ops) ! i) [6..<46])"
proof -
  have "messages (trimConversation maxMessages s) =
          messages s ! 0 # last_n (nat maxMessages) (messages s)"
    if "1 \<le> maxMessages" and "maxMessages < int (length (messages s))"
  proof -
    have "messages s \<noteq> []"
      using that by auto
    then have "js_first (messages s) = messages s ! 0"
      by (rule js_first_nth)
    then show ?thesis
      using trim_long [OF that] by simp
  qed
  moreover have "messages (trimConversation 40 (foldl apply_op init ops)) =
        messages (foldl apply_op init ops) ! 0 #
        map (\<lambda>i. messages (foldl apply_op init ops) ! i) [6..<46]"
    if "length ops = 45" and "list_all is_append ops"
  proof -
    have "length (messages (foldl apply_op init ops)) = 46"
      using length_appends [OF that(2), of init] that(1) by (simp add: init_def appendMessage_def)
    then show ?thesis
      by (rule trim_46)
  qed
  ultimately show ?thesis
    using trim_short [of s maxMessages] by blast
qed

text \<open>The theorem at the transcript after forty-five appends and at the initial one,
  with the limit 40.\<close>

theorem trim_replaces_by_first_and_last_witness:
  "((1::int) \<le> 40 \<and> 40 < int (length (messages (foldl apply_op init appends45)))) \<and>
   messages (trimConversation 40 (foldl apply_op init appends45)) =
     messages (foldl apply_op init appends45) ! 0 #
     last_n (nat 40) (messages (foldl apply_op init appends45)) \<and>
   int (length (messages init)) \<le> 40 \<and>
   messages (trimConversation 40 init) = messages init \<and>
   (length appends45 = 45 \<and> list_all is_append appends45) \<and>
   messages (trimConversation 40 (foldl apply_op init appends45)) =
     messages (foldl apply_op init appends45) ! 0 #
     map (\<lambda>i. messages (foldl apply_op init appends45) ! i) [6..<46]"
proof -
  have long: "(1::int) \<le> 40 \<and> 40 < int (length (messages (foldl apply_op init appends45)))"
    by (simp add: messages_appends45 length_numbered)
  have short: "int (length (messages init)) \<le> 40"
    by (simp add: init_def appendMessage_def)
  show ?thesis
    using trim_replaces_by_first_and_last [of 40 "foldl apply_op init appends45" appends45]
      trim_replaces_by_first_and_last [of 40 init] long short appends45_are_appends
    by blast
qed

text \<open>
  Elements 5 to 44, as the claim is stated, are not what is kept after 45 appends: the
  seeded transcript has 46 elements then, and its last 40 are elements 6 to 45.
\<close>

theorem forty_five_appends_keep_6_to_45:
  "length appends45 = 45 \<and> list_all is_append appends45 \<and>
   length (messages (foldl apply_op init appends45)) = 46 \<and>
   messages (trimConversation 40 (foldl apply_op init appends45)) \<noteq>
     messages (foldl apply_op init appends45) ! 0 #
     map (\<lambda>i. messages (foldl apply_op init appends45) ! i) [5..<45]"
proof -
  let ?ms = "messages (foldl apply_op init appends45)"
  have len: "length ?ms = 46"
    by (simp add: messages_appends45 length_numbered)
  then have kept: "messages (trimConversation 40 (foldl apply_op init appends45)) =
      ?ms ! 0 # map (\<lambda>i. ?ms ! i) [6..<46]"
    by (rule trim_46)
  have "(?ms ! 0 # map (\<lambda>i. ?ms ! i) [6..<46]) ! 1 = numbered 46 ! 6"
    by (simp add: messages_appends45)
  moreover have "(?ms ! 0 # map (\<lambda>i. ?ms ! i) [5..<45]) ! 1 = numbered 46 ! 5"
    by (simp add: messages_appends45)
  ultimately have "?ms ! 0 # map (\<lambda>i. ?ms ! i) [6..<46] \<noteq> ?ms ! 0 # map (\<lambda>i. ?ms ! i) [5..<45]"
    using numbered_5_6 by metis
  then show ?thesis
    using appends45_are_appends len kept by simp
qed

subsection \<open>C4: the tail slice and the first element\<close>

text \<open>
  Claim C4. For every limit \<open>maxMessages\<close> of at least 1 and every
  transcript longer than \<open>maxMessages\<close>, the slice \<open>messages.slice(-maxMessages)\<close> lies
  within the transcript without its first element, the result has exactly
  \<open>maxMessages + 1\<close> elements, and a first element that occurred nowhere else in the
  transcript occurs exactly once in the result, at index 0.
\<close>

theorem trim_tail_excludes_first:
  "1 \<le> maxMessages \<Longrightarrow> maxMessages < int (length (messages s)) \<Longrightarrow>
     suffix (js_slice (messages s) (- maxMessages)) (tl (messages s)) \<and>
     length (messages (trimConversation maxMessages s)) = nat maxMessages + 1 \<and>
     (js_first (messages s) \<notin> set (tl (messages s)) \<longrightarrow>
        count_list (messages (trimConversation maxMessages s)) (js_first (messages s)) = 1 \<and>
        js_first (messages s) \<notin> set (tl (messages (trimConversation maxMessages s))))"
  using slice_suffix_tl [of maxMessages "messages s"] length_trim_long [of maxMessages s]
    first_after_trim [of maxMessages s]
  by blast

text \<open>The theorem at a transcript of 45 messages, with the limit 40.\<close>

theorem trim_tail_excludes_first_witness:
  "(1::int) \<le> 40 \<and> 40 < int (length (messages (with_transcript (numbered 45)))) \<and>
   js_first (messages (with_transcript (numbered 45))) \<notin>
     set (tl (messages (with_transcript (numbered 45)))) \<and>
   suffix (js_slice (messages (with_transcript (numbered 45))) (- 40))
     (tl (messages (with_transcript (numbered 45)))) \<and>
   length (messages (trimConversation 40 (with_transcript (numbered 45)))) = nat 40 + 1 \<and>
   count_list (messages (trimConversation 40 (with_transcript (numbered 45))))
     (js_first (messages (with_transcript (numbered 45)))) = 1"
proof -
  have one: "(1::int) \<le> 40"
    by simp
  have long: "40 < int (length (messages (with_transcript (numbered 45))))"
    by (simp add: messages_with_transcript length_numbered)
  have once: "js_first (messages (with_transcript (numbered 45))) \<notin>
      set (tl (messages (with_transcript (numbered 45))))"
    by (simp add: messages_with_transcript js_first_numbered numbered_tail)
  show ?thesis
    using trim_tail_excludes_first [OF one long] one long once by blast
qed

subsection \<open>C5: the context text\<close>

text \<open>
  Claim C5, as the code has it. The context text is \<open>Conversation context: \<close> followed
  by \<open>User's name: {name}.\<close> when the name is a non-empty string and by
  \<open>User previously asked about: {q1}; {q2}; ... .\<close>, every question in order with
  \<open>; \<close> between two of them, when \<open>pastQuestions\<close> is not empty, the two separated by
  a space when both are there; it is \<open>Conversation context: (none yet)\<close> when neither is.
  A name that is \<open>null\<close> or the empty string is left out. For the name \<open>Ana\<close> and the
  questions \<open>red lipstick\<close>, \<open>dry scalp\<close> it is the text of the specification, and for
  the empty context the sentinel. The text is the content of the system message that
  \<open>buildMessagesWithContext\<close> puts between \<open>messages[0]\<close> and the rest of the transcript.
\<close>

theorem context_text_construction:
  "(name ctx = Some n \<and> n \<noteq> [] \<and> pastQuestions ctx = q # qs \<longrightarrow>
      contextBlock ctx =
        js ''Conversation context: '' @ js ''User's name: '' @ n @ js ''.'' @ js '' '' @
        js ''User previously asked about: '' @ q @ concat (map (\<lambda>x. js ''; '' @ x) qs) @ js ''.'') \<and>
   (name ctx = Some n \<and> n \<noteq> [] \<and> pastQuestions ctx = [] \<longrightarrow>
      contextBlock ctx = js ''Conversation context: '' @ js ''User's name: '' @ n @ js ''.'') \<and>
   (\<not> name_set ctx \<and> pastQuestions ctx = q # qs \<longrightarrow>
      contextBlock ctx =
        js ''Conversation context: '' @
        js ''User previously asked about: '' @ q @ concat (map (\<lambda>x. js ''; '' @ x) qs) @ js ''.'') \<and>
   (\<not> name_set ctx \<and> pastQuestions ctx = [] \<longrightarrow>
      contextBlock ctx = js ''Conversation context: (none yet)'') \<and>
   contextBlock ana =
     js ''Conversation context: User's name: Ana. User previously asked about: red lipstick; dry scalp.'' \<and>
   contextBlock \<lparr>name = None, pastQuestions = []\<rparr> = js ''Conversation context: (none yet)'' \<and>
   buildMessagesWithContext s =
     js_first (messages s) #
     Some \<lparr>role = System, content = JStr (contextBlock (userContext s))\<rparr> # tl (messages s)"
proof -
  have both: "name ctx = Some n \<and> n \<noteq> [] \<and> pastQuestions ctx = q # qs \<longrightarrow>
      contextBlock ctx =
        js ''Conversation context: '' @ js ''User's name: '' @ n @ js ''.'' @ js '' '' @
        js ''User previously asked about: '' @ q @ concat (map (\<lambda>x. js ''; '' @ x) qs) @ js ''.''"
    by (simp add: contextBlock_def js_join_concat del: js_join.simps)
  have named: "name ctx = Some n \<and> n \<noteq> [] \<and> pastQuestions ctx = [] \<longrightarrow>
      contextBlock ctx = js ''Conversation context: '' @ js ''User's name: '' @ n @ js ''.''"
    by (simp add: contextBlock_def)
  have asked: "\<not> name_set ctx \<and> pastQuestions ctx = q # qs \<longrightarrow>
      contextBlock ctx =
        js ''Conversation context: '' @
        js ''User previously asked about: '' @ q @ concat (map (\<lambda>x. js ''; '' @ x) qs) @ js ''.''"
    by (simp add: contextBlock_def name_set_def js_join_concat del: js_join.simps
        split: option.splits)
  have neither: "\<not> name_set ctx \<and> pastQuestions ctx = [] \<longrightarrow>
      contextBlock ctx = js ''Conversation context: (none yet)''"
    by (simp add: contextBlock_def name_set_def split: option.splits)
  show ?thesis
    by (intro conjI) (rule both named asked neither contextBlock_ana contextBlock_empty build_shape)+
qed

text \<open>The theorem at a context with both parts, with the name only, with questions
  only, and at the initial context.\<close>

theorem context_text_construction_witness:
  "(name ana = Some (js ''Ana'') \<and> js ''Ana'' \<noteq> [] \<and>
      pastQuestions ana = js ''red lipstick'' # [js ''dry scalp'']) \<and>
   contextBlock ana =
     js ''Conversation context: '' @ js ''User's name: '' @ js ''Ana'' @ js ''.'' @ js '' '' @
     js ''User previously asked about: '' @ js ''red lipstick'' @
     concat (map (\<lambda>x. js ''; '' @ x) [js ''dry scalp'']) @ js ''.'' \<and>
   (name (ana\<lparr>pastQuestions := []\<rparr>) = Some (js ''Ana'') \<and> js ''Ana'' \<noteq> [] \<and>
      pastQuestions (ana\<lparr>pastQuestions := []\<rparr>) = []) \<and>
   contextBlock (ana\<lparr>pastQuestions := []\<rparr>) =
     js ''Conversation context: '' @ js ''User's name: '' @ js ''Ana'' @ js ''.'' \<and>
   (\<not> name_set (ana\<lparr>name := None\<rparr>) \<and>
      pastQuestions (ana\<lparr>name := None\<rparr>) = js ''red lipstick'' # [js ''dry scalp'']) \<and>
   contextBlock (ana\<lparr>name := None\<rparr>) =
     js ''Conversation context: '' @ js ''User previously asked about: '' @ js ''red lipstick'' @
     concat (map (\<lambda>x. js ''; '' @ x) [js ''dry scalp'']) @ js ''.'' \<and>
   (\<not> name_set (userContext init) \<and> pastQuestions (userContext init) = []) \<and>
   contextBlock (userContext init) = js ''Conversation context: (none yet)''"
proof -
  have both: "name ana = Some (js ''Ana'') \<and> js ''Ana'' \<noteq> [] \<and>
      pastQuestions ana = js ''red lipstick'' # [js ''dry scalp'']"
    by (simp add: ana_def js_def)
  have named: "name (ana\<lparr>pastQuestions := []\<rparr>) = Some (js ''Ana'') \<and> js ''Ana'' \<noteq> [] \<and>
      pastQuestions (ana\<lparr>pastQuestions := []\<rparr>) = []"
    by (simp add: ana_def js_def)
  have asked: "\<not> name_set (ana\<lparr>name := None\<rparr>) \<and>
      pastQuestions (ana\<lparr>name := None\<rparr>) = js ''red lipstick'' # [js ''dry scalp'']"
    by (simp add: ana_def name_set_def)
  have neither: "\<not> name_set (userContext init) \<and> pastQuestions (userContext init) = []"
    by (simp add: init_def appendMessage_def name_set_def)
  note t1 = context_text_construction [of ana "js ''Ana''" "js ''red lipstick''" "[js ''dry scalp'']",
      THEN conjunct1, THEN mp, OF both]
  note t2 = context_text_construction [of "ana\<lparr>pastQuestions := []\<rparr>" "js ''Ana''",
      THEN conjunct2, THEN conjunct1, THEN mp, OF named]
  note t3 = context_text_construction [of "ana\<lparr>name := None\<rparr>" _ "js ''red lipstick''"
      "[js ''dry scalp'']", THEN conjunct2, THEN conjunct2, THEN conjunct1, THEN mp, OF asked]
  note t4 = context_text_construction [of "userContext init",
      THEN conjunct2, THEN conjunct2, THEN conjunct2, THEN conjunct1, THEN mp, OF neither]
  show ?thesis
    by (rule conjI, rule both, rule conjI, rule t1, rule conjI, rule named, rule conjI, rule t2,
        rule conjI, rule asked, rule conjI, rule t3, rule conjI, rule neither, rule t4)
qed

text \<open>
  A name that is set and yet left out: submitting \<open>my name is   3PO\<close> in the initial
  session stores the empty string as the name (the capture is two of the three spaces,
  and is trimmed), and the context text has no \<open>User's name:\<close> part.
\<close>

theorem empty_name_is_left_out:
  "name (userContext (fst (chatForm_submit (init\<lparr>inputValue := js ''my name is   3PO''\<rparr>)))) =
     Some [] \<and>
   pastQuestions (userContext (fst (chatForm_submit (init\<lparr>inputValue := js ''my name is   3PO''\<rparr>)))) =
     [js ''my name is   3PO''] \<and>
   contextBlock (userContext (fst (chatForm_submit (init\<lparr>inputValue := js ''my name is   3PO''\<rparr>)))) =
     js ''Conversation context: User previously asked about: my name is   3PO.'' \<and>
   contextBlock (userContext (fst (chatForm_submit (init\<lparr>inputValue := js ''my name is   3PO''\<rparr>)))) \<noteq>
     js ''Conversation context: '' @ js ''User's name: '' @ [] @ js ''.'' @ js '' '' @
     js ''User previously asked about: '' @ js ''my name is   3PO'' @ js ''.''"
proof -
  have shown: "contextBlock \<lparr>name = Some [], pastQuestions = [js ''my name is   3PO'']\<rparr> =
      js ''Conversation context: User previously asked about: my name is   3PO.''"
    by (simp add: contextBlock_def js_def)
  have other: "js ''Conversation context: User previously asked about: my name is   3PO.'' \<noteq>
      js ''Conversation context: '' @ js ''User's name: '' @ [] @ js ''.'' @ js '' '' @
      js ''User previously asked about: '' @ js ''my name is   3PO'' @ js ''.''"
    by (simp add: js_def)
  show ?thesis
    unfolding three_po_submit shown using other by simp
qed

subsection \<open>C6: the name detected in the sample sentence\<close>

text \<open>
  Claim C6, as the code has it. With no name stored, the name detector run on
  \<open>Hi, I'm Renae and I have dry skin\<close> stores \<open>Renae and I have dry skin\<close>: the capture
  takes every letter, space, apostrophe and hyphen that follows, to the end of the input,
  and no pattern stops at a conjunction.
\<close>

theorem renae_capture_runs_on:
  "\<not> name_set (userContext s) \<Longrightarrow>
   name (userContext (detectAndStoreName (js ''Hi, I'm Renae and I have dry skin'') s)) =
     Some (js ''Renae and I have dry skin'')"
  by (simp add: detectAndStoreName_def renae_first_match)

text \<open>The theorem at the initial session.\<close>

theorem renae_capture_runs_on_witness:
  "\<not> name_set (userContext init) \<and>
   name (userContext (detectAndStoreName (js ''Hi, I'm Renae and I have dry skin'') init)) =
     Some (js ''Renae and I have dry skin'')"
  using renae_capture_runs_on [OF init_unnamed] init_unnamed by blast

text \<open>The name stored from the sample sentence in the initial session is not \<open>Renae\<close>.\<close>

theorem renae_is_not_the_stored_name:
  "\<not> name_set (userContext init) \<and>
   name (userContext (detectAndStoreName (js ''Hi, I'm Renae and I have dry skin'') init)) \<noteq>
     Some (js ''Renae'')"
proof -
  have "js ''Renae and I have dry skin'' \<noteq> js ''Renae''"
    by (simp add: js_def)
  then show ?thesis
    using init_unnamed by (simp add: detectAndStoreName_def renae_first_match)
qed

subsection \<open>C7: the name is set once\<close>

text \<open>
  Claim C7. Once \<open>userContext.name\<close> is a non-empty string, \<open>detectAndStoreName\<close> changes
  nothing, whatever the message, and the name stays the same through every later event
  of the session: inputs, submits (which run the detector) and settled calls.
\<close>

theorem name_is_never_overwritten:
  "name_set (userContext s) \<Longrightarrow>
     detectAndStoreName message s = s \<and>
     name (userContext (fst (foldl step (s, pending) evs))) = name (userContext s)"
  by (simp add: detect_noop name_steps)

text \<open>The theorem at a session that knows the name \<open>Ana\<close>, for the message
  \<open>my name is Bob\<close>, from which the detector would otherwise take \<open>Bob\<close>.\<close>

theorem name_is_never_overwritten_witness:
  "name_set (userContext (init\<lparr>userContext := ana\<rparr>)) \<and>
   first_match patterns (js ''my name is Bob'') = Some (js ''Bob'') \<and>
   detectAndStoreName (js ''my name is Bob'') (init\<lparr>userContext := ana\<rparr>) =
     init\<lparr>userContext := ana\<rparr> \<and>
   name (userContext (fst (foldl step (init\<lparr>userContext := ana\<rparr>, 0)
       [Typed (js ''my name is Bob''), Submit, Settled ok_response]))) =
     name (userContext (init\<lparr>userContext := ana\<rparr>))"
proof -
  have "name_set (userContext (init\<lparr>userContext := ana\<rparr>))"
    by (simp add: ana_def name_set_def js_def)
  then show ?thesis
    using name_is_never_overwritten [of "init\<lparr>userContext := ana\<rparr>"] bob_first_match by blast
qed

subsection \<open>C8: a failed call\<close>

text \<open>
  Claim C8. When the call of the Worker fails (\<open>getOpenAIReply\<close> throws), the handler
  ends with \<open>isSending\<close> false, and \<open>messages\<close> and \<open>userContext\<close> are what they were
  when the call was made: the fallback text is appended to the chat window only. The call
  fails when \<open>fetch\<close> is rejected, when the status is not 2xx, and when a 2xx body such
  as \<open>{foo: "bar"}\<close> has neither shape. \<open>isSending\<close> is false after a successful call
  too.
\<close>

theorem failed_call_leaves_transcript:
  "isSending (chatForm_settled r s) = False \<and>
   (isl (getOpenAIReply r) \<longrightarrow>
      messages (chatForm_settled r s) = messages s \<and>
      userContext (chatForm_settled r s) = userContext s \<and>
      chatWindow (chatForm_settled r s) =
        chatWindow s @ [\<lparr>className = js ''msg ai'', textContent = JStr FALLBACK\<rparr>]) \<and>
   isl (getOpenAIReply Rejected) \<and>
   (\<not> res_ok status \<longrightarrow> isl (getOpenAIReply (Response status body))) \<and>
   (res_ok status \<longrightarrow> getOpenAIReply (Response status (Some foo_bar)) = Inl UnexpectedShape)"
proof -
  have "messages (chatForm_settled r s) = messages s \<and>
      userContext (chatForm_settled r s) = userContext s \<and>
      chatWindow (chatForm_settled r s) =
        chatWindow s @ [\<lparr>className = js ''msg ai'', textContent = JStr FALLBACK\<rparr>]"
    if "isl (getOpenAIReply r)"
  proof -
    from that obtain err where "getOpenAIReply r = Inl err"
      by (cases "getOpenAIReply r") simp_all
    then show ?thesis
      by (simp add: failure_state)
  qed
  then show ?thesis
    by (simp add: settled_idle failure_kinds not_ok_fails)
qed

text \<open>The theorem at the state after the first submit of \<open>hi\<close>, for a 2xx answer
  \<open>{foo: "bar"}\<close>, and for the status 500.\<close>

theorem failed_call_leaves_transcript_witness:
  "isl (getOpenAIReply (Response 200 (Some foo_bar))) \<and>
   messages (chatForm_settled (Response 200 (Some foo_bar))
       (fst (chatForm_submit (init\<lparr>inputValue := js ''hi''\<rparr>)))) =
     [Some base_system, Some \<lparr>role = User, content = JStr (js ''hi'')\<rparr>] \<and>
   isSending (fst (chatForm_submit (init\<lparr>inputValue := js ''hi''\<rparr>))) \<and>
   \<not> isSending (chatForm_settled (Response 200 (Some foo_bar))
       (fst (chatForm_submit (init\<lparr>inputValue := js ''hi''\<rparr>)))) \<and>
   \<not> res_ok 500 \<and> isl (getOpenAIReply (Response 500 None)) \<and>
   res_ok 200 \<and> getOpenAIReply (Response 200 (Some foo_bar)) = Inl UnexpectedShape"
proof -
  let ?s = "fst (chatForm_submit (init\<lparr>inputValue := js ''hi''\<rparr>))"
  let ?r = "Response 200 (Some foo_bar)"
  have ok: "res_ok 200" and bad: "\<not> res_ok 500"
    by (simp_all add: res_ok_def)
  note t = failed_call_leaves_transcript [of ?r ?s 200]
  have shape: "getOpenAIReply ?r = Inl UnexpectedShape"
    using t ok by blast
  then have failed: "isl (getOpenAIReply ?r)"
    by simp
  have "messages (chatForm_settled ?r ?s) = messages ?s"
    using t failed by blast
  then have m: "messages (chatForm_settled ?r ?s) =
      [Some base_system, Some \<lparr>role = User, content = JStr (js ''hi'')\<rparr>]"
    by (simp only: submit_hi_messages)
  have idle: "\<not> isSending (chatForm_settled ?r ?s)"
    using t by blast
  have "isl (getOpenAIReply (Response 500 None))"
    using failed_call_leaves_transcript [of ?r ?s 500 None] bad by blast
  then show ?thesis
    using failed m submit_hi_sending idle bad ok shape by blast
qed

subsection \<open>C9: the reply taken from a 2xx body\<close>

text \<open>
  Claim C9, as the code has it. For every 2xx response: when the body is not JSON, the
  client fails with the error of \<open>res.json()\<close>; otherwise, when
  \<open>choices[0].message.content\<close> is truthy (a non-empty text, for one) the client returns
  exactly that value; otherwise, when \<open>reply\<close> is truthy, it returns that; otherwise it
  fails with the shape error; there is no other outcome. So a body
  \<open>{choices: [{message: {content: t}}, ...]}\<close> or \<open>{reply: t}\<close> with a non-empty text
  \<open>t\<close> yields \<open>t\<close>, \<open>{foo: "bar"}\<close> fails, and the specification's example yields
  \<open>Try Product X\<close>.
\<close>

theorem reply_extraction:
  "res_ok status \<Longrightarrow>
     getOpenAIReply (Response status None) = Inl JsonSyntaxError \<and>
     getOpenAIReply (Response status (Some data)) =
       (let c = js_prop (js_prop (js_index0 (js_prop data (js ''choices''))) (js ''message''))
                  (js ''content'');
            rp = js_prop data (js ''reply'')
        in if truthy c then Inr c else if truthy rp then Inr rp else Inl UnexpectedShape) \<and>
     (t \<noteq> [] \<longrightarrow>
        getOpenAIReply (Response status (Some (JObj [(js ''choices'',
          JArr (JObj [(js ''message'', JObj [(js ''content'', JStr t)])] # others))]))) = Inr (JStr t)) \<and>
     (t \<noteq> [] \<longrightarrow>
        getOpenAIReply (Response status (Some (JObj [(js ''reply'', JStr t)]))) = Inr (JStr t)) \<and>
     getOpenAIReply (Response status (Some foo_bar)) = Inl UnexpectedShape \<and>
     getOpenAIReply (Response 200 (Some (completion (js ''Try Product X'')))) =
       Inr (JStr (js ''Try Product X''))"
  by (simp add: getOpenAIReply_def Let_def foo_bar_def completion_def res_ok_def js_def)

text \<open>The theorem at the status 200 and the text \<open>Try Product X\<close>.\<close>

theorem reply_extraction_witness:
  "res_ok 200 \<and> js ''Try Product X'' \<noteq> [] \<and>
   getOpenAIReply (Response 200 None) = Inl JsonSyntaxError \<and>
   getOpenAIReply (Response 200 (Some (JObj [(js ''choices'',
     JArr (JObj [(js ''message'', JObj [(js ''content'', JStr (js ''Try Product X''))])] # []))]))) =
     Inr (JStr (js ''Try Product X'')) \<and>
   getOpenAIReply (Response 200 (Some (JObj [(js ''reply'', JStr (js ''Try Product X''))]))) =
     Inr (JStr (js ''Try Product X'')) \<and>
   getOpenAIReply (Response 200 (Some foo_bar)) = Inl UnexpectedShape"
proof -
  have ok: "res_ok 200"
    by (simp add: res_ok_def)
  have ne: "js ''Try Product X'' \<noteq> []"
    by (simp add: js_def)
  show ?thesis
    using reply_extraction [OF ok, of _ "js ''Try Product X''" "[]"] ok ne by blast
qed

text \<open>
  Two 2xx responses on which the claim as stated fails. A body that contains
  \<open>choices[0].message.content\<close> with the empty text: the claim returns that text, the
  client fails with the shape error. A body that is not JSON: the client fails with the
  error of \<open>res.json()\<close>, which is none of the claim's three outcomes.
\<close>

theorem empty_completion_and_non_json_body:
  "res_ok 200 \<and>
   js_prop (js_prop (js_index0 (js_prop (completion []) (js ''choices''))) (js ''message''))
     (js ''content'') = JStr [] \<and>
   claimed_reply (completion []) = Inr (JStr []) \<and>
   getOpenAIReply (Response 200 (Some (completion []))) = Inl UnexpectedShape \<and>
   getOpenAIReply (Response 200 (Some (completion []))) \<noteq> claimed_reply (completion []) \<and>
   getOpenAIReply (Response 200 None) = Inl JsonSyntaxError \<and>
   getOpenAIReply (Response 200 None) \<noteq> Inl UnexpectedShape"
  by (simp add: getOpenAIReply_def claimed_reply_def completion_def res_ok_def js_def)

subsection \<open>C10: a submit while a call is pending\<close>

text \<open>
  Claim C10. A submit event that arrives while \<open>isSending\<close> is true changes nothing of
  the session state and calls the Worker no more; hence, along every run from the initial
  state, at most one call is pending, and one is pending exactly while \<open>isSending\<close> is
  true.
\<close>

theorem submit_while_sending_is_dropped:
  "(isSending s \<longrightarrow> chatForm_submit s = (s, None) \<and> step (s, pending) Submit = (s, pending)) \<and>
   single_flight (run evs) \<and> snd (run evs) \<le> 1 \<and>
   (snd (run evs) = 1) = isSending (fst (run evs))"
  using single_flight_run [of evs]
  by (auto simp: submit_while_sending single_flight_def split: if_splits)

text \<open>The theorem at the state after the first submit of \<open>hi\<close>, and at the run with a
  second submit.\<close>

theorem submit_while_sending_is_dropped_witness:
  "isSending (fst (chatForm_submit (init\<lparr>inputValue := js ''hi''\<rparr>))) \<and>
   chatForm_submit (fst (chatForm_submit (init\<lparr>inputValue := js ''hi''\<rparr>))) =
     (fst (chatForm_submit (init\<lparr>inputValue := js ''hi''\<rparr>)), None) \<and>
   step (fst (chatForm_submit (init\<lparr>inputValue := js ''hi''\<rparr>)), 1) Submit =
     (fst (chatForm_submit (init\<lparr>inputValue := js ''hi''\<rparr>)), 1) \<and>
   snd (run [Typed (js ''hi''), Submit, Submit]) \<le> 1"
  using submit_while_sending_is_dropped
    [of "fst (chatForm_submit (init\<lparr>inputValue := js ''hi''\<rparr>))" 1 "[Typed (js ''hi''), Submit, Submit]"]
    submit_hi_sending
  by blast


end
